theory Spec2Isabelle
  imports Complex_Main
begin

section \<open>Data model\<close>

text \<open>
  Tab identifiers are strings.  JavaScript numbers are modelled exactly: clock readings
  (\<^verbatim>\<open>Date.now()\<close>, integer milliseconds) and their differences as \<^typ>\<open>int\<close>,
  scroll offsets and averages as \<^typ>\<open>real\<close>.
\<close>

type_synonym tab_name = string

datatype strategy = Normal | Moderate | Aggressive

text \<open>
  The parameters of \<^verbatim>\<open>useHighPerformanceTabSync\<close> and of the constructor of
  \<^verbatim>\<open>HighPerformanceTabSync\<close>.  \<open>refMap t = Some c\<close> says that \<^verbatim>\<open>refMap[t]\<close> is a
  ref object (truthy) whose \<^verbatim>\<open>.current\<close> is truthy exactly when \<open>c\<close> holds;
  \<open>refMap t = None\<close> says that \<^verbatim>\<open>refMap[t]\<close> is undefined.
\<close>

record sync_env =
  refMap :: "tab_name \<rightharpoonup> bool"
  contentInset :: real
  tabNames :: "tab_name list"

text \<open>Callbacks handed to \<^verbatim>\<open>setTimeout\<close> by the hook.\<close>

datatype task = ProcessBatch | RecordSwitch int

text \<open>
  The refs of the hook, the shared value \<^verbatim>\<open>isScrolling\<close> it reads, and what it has handed
  to the host: \<open>timers\<close> holds the pending \<^verbatim>\<open>setTimeout\<close> callbacks with the time they
  are due (kept in firing order), \<open>interactions\<close> the pending callbacks of
  \<^verbatim>\<open>InteractionManager.runAfterInteractions\<close> with the \<^verbatim>\<open>now\<close> and the
  \<^verbatim>\<open>syncEntries\<close> they captured, \<open>scrolled\<close> the calls
  \<^verbatim>\<open>scrollToImpl(refMap[tab], 0, y, false)\<close> issued so far as pairs \<open>(tab, y)\<close>, and
  \<open>setPageCalls\<close> the calls of \<^verbatim>\<open>containerRef.current.setPage\<close>.
\<close>

record sync_state =
  syncQueue :: "(tab_name \<times> real) list"
  isProcessing :: bool
  lastProcessTime :: int
  performanceStrategy :: strategy
  switchTimes :: "int list"
  isScrolling :: bool
  timers :: "(int \<times> task) list"
  interactions :: "(int \<times> (tab_name \<times> real) list) list"
  scrolled :: "(tab_name \<times> real) list"
  setPageCalls :: "int list"

definition initial_sync_state :: sync_state where
  "initial_sync_state =
     \<lparr>syncQueue = [], isProcessing = False, lastProcessTime = 0,
      performanceStrategy = Normal, switchTimes = [], isScrolling = False,
      timers = [], interactions = [], scrolled = [], setPageCalls = []\<rparr>"

section \<open>Host primitives\<close>

text \<open>\<^verbatim>\<open>Array.prototype.findIndex\<close>: the first index whose element satisfies \<open>p\<close>, else \<open>-1\<close>.\<close>

fun findIndex :: "('a \<Rightarrow> bool) \<Rightarrow> 'a list \<Rightarrow> int" where
  "findIndex p [] = - 1"
| "findIndex p (x # xs) =
     (if p x then 0 else (let i = findIndex p xs in if i < 0 then - 1 else i + 1))"

text \<open>
  \<^verbatim>\<open>Map.prototype.set\<close> on an insertion-ordered map: an existing key keeps its place and
  takes the new value, a new key goes to the end.
\<close>

fun queue_set :: "'k \<Rightarrow> 'v \<Rightarrow> ('k \<times> 'v) list \<Rightarrow> ('k \<times> 'v) list" where
  "queue_set k v [] = [(k, v)]"
| "queue_set k v (e # q) = (if fst e = k then (k, v) # q else e # queue_set k v q)"

text \<open>
  \<^verbatim>\<open>setTimeout\<close>: the callback joins the pending ones behind every callback that is due
  no later than it.
\<close>

fun add_timer :: "int \<times> 'a \<Rightarrow> (int \<times> 'a) list \<Rightarrow> (int \<times> 'a) list" where
  "add_timer x [] = [x]"
| "add_timer x (y # ys) = (if fst y \<le> fst x then y # add_timer x ys else x # y # ys)"

section \<open>The hook useHighPerformanceTabSync\<close>

definition getThrottleInterval :: "sync_state \<Rightarrow> int" where
  "getThrottleInterval s =
     (case performanceStrategy s of Aggressive \<Rightarrow> 50 | Moderate \<Rightarrow> 33 | Normal \<Rightarrow> 16)"

definition processBatch :: "int \<Rightarrow> sync_state \<Rightarrow> sync_state" where
  "processBatch now s =
     (if isScrolling s \<or> syncQueue s = [] \<or> isProcessing s then s
      else s\<lparr>isProcessing := True, syncQueue := [],
             interactions := interactions s @ [(now, syncQueue s)]\<rparr>)"

text \<open>The corrections one drained batch issues: one per entry whose \<^verbatim>\<open>refMap[tabName]\<close> is truthy.\<close>

fun syncEntries_scrolls :: "sync_env \<Rightarrow> (tab_name \<times> real) list \<Rightarrow> (tab_name \<times> real) list" where
  "syncEntries_scrolls env [] = []"
| "syncEntries_scrolls env (e # es) =
     (if refMap env (fst e) \<noteq> None
      then (fst e, snd e - contentInset env) # syncEntries_scrolls env es
      else syncEntries_scrolls env es)"

text \<open>The callback that \<^verbatim>\<open>processBatch\<close> hands to \<^verbatim>\<open>runAfterInteractions\<close>.\<close>

definition interactionCallback ::
  "sync_env \<Rightarrow> int \<times> (tab_name \<times> real) list \<Rightarrow> sync_state \<Rightarrow> sync_state" where
  "interactionCallback env cb s =
     s\<lparr>scrolled := scrolled s @ syncEntries_scrolls env (snd cb),
       isProcessing := False, lastProcessTime := fst cb\<rparr>"

text \<open>The interaction manager runs the oldest pending callback.\<close>

definition runInteractions :: "sync_env \<Rightarrow> sync_state \<Rightarrow> sync_state" where
  "runInteractions env s =
     (case interactions s of
        [] \<Rightarrow> s
      | cb # rest \<Rightarrow> interactionCallback env cb (s\<lparr>interactions := rest\<rparr>))"

definition requestSync_currentIndex :: "sync_env \<Rightarrow> tab_name \<Rightarrow> int" where
  "requestSync_currentIndex env tabName = findIndex (\<lambda>name. name = tabName) (tabNames env)"

definition requestSync_focusedIndex :: "sync_env \<Rightarrow> int" where
  "requestSync_focusedIndex env = findIndex (\<lambda>name. refMap env name = Some True) (tabNames env)"

definition requestSync :: "sync_env \<Rightarrow> int \<Rightarrow> tab_name \<Rightarrow> real \<Rightarrow> sync_state \<Rightarrow> sync_state" where
  "requestSync env now tabName scrollY s =
     (if \<bar>requestSync_currentIndex env tabName - requestSync_focusedIndex env\<bar> > 1 then s
      else
        let s1 = s\<lparr>syncQueue := queue_set tabName scrollY (syncQueue s)\<rparr>;
            timeSinceLastProcess = now - lastProcessTime s1;
            throttleInterval = getThrottleInterval s1
        in if timeSinceLastProcess \<ge> throttleInterval then processBatch now s1
           else s1\<lparr>timers :=
                  add_timer (now + (throttleInterval - timeSinceLastProcess), ProcessBatch)
                    (timers s1)\<rparr>)"

text \<open>\<^verbatim>\<open>switchTimes.current.reduce((a, b) => a + b, 0) / switchTimes.current.length\<close>\<close>

definition avgTime :: "int list \<Rightarrow> real" where
  "avgTime ds = real_of_int (foldl (\<lambda>a b. a + b) 0 ds) / real (length ds)"

definition recordTabSwitch :: "int \<Rightarrow> sync_state \<Rightarrow> sync_state" where
  "recordTabSwitch duration s =
     (let pushed = switchTimes s @ [duration];
          kept = (if length pushed > 10 then tl pushed else pushed)
      in s\<lparr>switchTimes := kept,
            performanceStrategy :=
              (if length kept \<ge> 3
               then (if avgTime kept > 100 then Aggressive
                     else if avgTime kept > 50 then Moderate
                     else Normal)
               else performanceStrategy s)\<rparr>)"

text \<open>
  \<open>smartTabSwitch now targetIndex container s\<close>; \<open>container\<close> says whether
  \<^verbatim>\<open>containerRef.current\<close> is there.  The returned \<^verbatim>\<open>{ startTime }\<close> is \<open>now\<close>.
\<close>

definition smartTabSwitch :: "int \<Rightarrow> int \<Rightarrow> bool \<Rightarrow> sync_state \<Rightarrow> sync_state" where
  "smartTabSwitch now targetIndex container s =
     (let delay = (if performanceStrategy s = Aggressive then 100 else 50)
      in s\<lparr>syncQueue := [],
            setPageCalls := (if container then setPageCalls s @ [targetIndex] else setPageCalls s),
            timers := add_timer (now + delay, RecordSwitch now) (timers s)\<rparr>)"

text \<open>The host fires the first pending timer once it is due.\<close>

definition fireTimer :: "int \<Rightarrow> sync_state \<Rightarrow> sync_state" where
  "fireTimer now s =
     (case timers s of
        [] \<Rightarrow> s
      | x # rest \<Rightarrow>
          (if fst x \<le> now
           then (case snd x of
                   ProcessBatch \<Rightarrow> processBatch now (s\<lparr>timers := rest\<rparr>)
                 | RecordSwitch startTime \<Rightarrow> recordTabSwitch (now - startTime) (s\<lparr>timers := rest\<rparr>))
           else s))"

text \<open>
  What can happen to the hook, and a run of such events.  \<open>Cleanup\<close> is the cleanup of the
  hook's effect, run when the component unmounts: \<^verbatim>\<open>syncQueue.clear()\<close> and
  \<^verbatim>\<open>switchTimes.current = []\<close>.  It leaves the strategy and the pending timeouts as they
  are, so a timeout of \<^verbatim>\<open>smartTabSwitch\<close> still runs afterwards.
\<close>

datatype event =
    RequestSync int tab_name real
  | SmartTabSwitch int int bool
  | FireTimer int
  | RunInteractions
  | SetScrolling bool
  | Cleanup

fun step :: "sync_env \<Rightarrow> sync_state \<Rightarrow> event \<Rightarrow> sync_state" where
  "step env s (RequestSync now tabName scrollY) = requestSync env now tabName scrollY s"
| "step env s (SmartTabSwitch now targetIndex container) = smartTabSwitch now targetIndex container s"
| "step env s (FireTimer now) = fireTimer now s"
| "step env s RunInteractions = runInteractions env s"
| "step env s (SetScrolling b) = s\<lparr>isScrolling := b\<rparr>"
| "step env s Cleanup = s\<lparr>syncQueue := [], switchTimes := []\<rparr>"

definition run :: "sync_env \<Rightarrow> event list \<Rightarrow> sync_state \<Rightarrow> sync_state" where
  "run env evs s = foldl (step env) s evs"

section \<open>Strategy derivation and the sample buffer\<close>

text \<open>The strategy as the specification words it, for a buffer of samples.\<close>

definition strategy_of_samples :: "int list \<Rightarrow> strategy" where
  "strategy_of_samples ds =
     (if length ds < 3 then Normal
      else if avgTime ds > 100 then Aggressive
      else if avgTime ds > 50 then Moderate
      else Normal)"

section \<open>The class HighPerformanceTabSync\<close>

text \<open>
  The fields of the class, the shared value \<^verbatim>\<open>isScrolling\<close> it reads, and what it has
  handed to the host: \<open>ts_frames\<close> counts the pending \<^verbatim>\<open>requestAnimationFrame\<close> callbacks
  and \<open>ts_batches\<close> holds, for each batch in flight, the \<^verbatim>\<open>performSync\<close> promises that
  its \<^verbatim>\<open>Promise.all\<close> waits for, each with its tab and its \<^verbatim>\<open>scrollY\<close>.
\<close>

record tabsync_state =
  ts_syncQueue :: "(tab_name \<times> real) list"
  ts_isProcessing :: bool
  ts_lastProcessTime :: int
  ts_isScrolling :: bool
  ts_frames :: nat
  ts_batches :: "(tab_name \<times> real) list list"

definition PROCESS_INTERVAL :: int where
  "PROCESS_INTERVAL = 16"

definition new_tabsync :: tabsync_state where
  "new_tabsync =
     \<lparr>ts_syncQueue = [], ts_isProcessing = False, ts_lastProcessTime = 0,
      ts_isScrolling = False, ts_frames = 0, ts_batches = []\<rparr>"

definition ts_processBatch :: "sync_env \<Rightarrow> int \<Rightarrow> tabsync_state \<Rightarrow> tabsync_state" where
  "ts_processBatch env now c =
     (if ts_isScrolling c \<or> length (ts_syncQueue c) = 0 then c
      else c\<lparr>ts_isProcessing := True, ts_lastProcessTime := now,
             ts_batches :=
               ts_batches c @ [filter (\<lambda>e. refMap env (fst e) \<noteq> None) (ts_syncQueue c)]\<rparr>)"

definition ts_scheduleBatchProcess :: "sync_env \<Rightarrow> int \<Rightarrow> tabsync_state \<Rightarrow> tabsync_state" where
  "ts_scheduleBatchProcess env now c =
     (let timeSinceLastProcess = now - ts_lastProcessTime c
      in if timeSinceLastProcess < PROCESS_INTERVAL then c\<lparr>ts_frames := Suc (ts_frames c)\<rparr>
         else ts_processBatch env now c)"

definition ts_requestSync ::
  "sync_env \<Rightarrow> int \<Rightarrow> tab_name \<Rightarrow> real \<Rightarrow> tabsync_state \<Rightarrow> tabsync_state" where
  "ts_requestSync env now tabName scrollY c =
     (let c1 = c\<lparr>ts_syncQueue := queue_set tabName scrollY (ts_syncQueue c)\<rparr>
      in if \<not> ts_isProcessing c1 then ts_scheduleBatchProcess env now c1 else c1)"

text \<open>The host runs one pending animation-frame callback.\<close>

definition ts_animationFrame :: "sync_env \<Rightarrow> int \<Rightarrow> tabsync_state \<Rightarrow> tabsync_state" where
  "ts_animationFrame env now c =
     (case ts_frames c of
        0 \<Rightarrow> c
      | Suc n \<Rightarrow> ts_processBatch env now (c\<lparr>ts_frames := n\<rparr>))"

text \<open>
  The worklet that \<^verbatim>\<open>performSync\<close> runs on the UI thread.  When \<^verbatim>\<open>refMap[tabName]\<close> is
  truthy it evaluates the call of \<^verbatim>\<open>scrollToImpl\<close>, a name that
  \<^verbatim>\<open>HighPerformanceOptimizations.ts\<close> neither imports nor defines: the call throws, no
  scroll is made and \<^verbatim>\<open>resolve\<close> is never reached.  Otherwise the worklet goes on to
  resolve the promise.
\<close>

datatype worklet_outcome = Throws | Resolves

definition performSync_worklet :: "sync_env \<Rightarrow> tab_name \<times> real \<Rightarrow> worklet_outcome" where
  "performSync_worklet env e = (if refMap env (fst e) \<noteq> None then Throws else Resolves)"

text \<open>
  The \<^verbatim>\<open>finally\<close> handler of a batch runs once all its promises have resolved.  The
  batches in flight with the first such batch taken out, if there is one:
\<close>

fun settled_out ::
  "sync_env \<Rightarrow> (tab_name \<times> real) list list \<Rightarrow> (tab_name \<times> real) list list option" where
  "settled_out env [] = None"
| "settled_out env (b # bs) =
     (if list_all (\<lambda>e. performSync_worklet env e = Resolves) b then Some bs
      else (case settled_out env bs of None \<Rightarrow> None | Some rest \<Rightarrow> Some (b # rest)))"

definition ts_settleBatch :: "sync_env \<Rightarrow> tabsync_state \<Rightarrow> tabsync_state" where
  "ts_settleBatch env c =
     (case settled_out env (ts_batches c) of
        None \<Rightarrow> c
      | Some rest \<Rightarrow> c\<lparr>ts_batches := rest, ts_syncQueue := [], ts_isProcessing := False\<rparr>)"

definition ts_destroy :: "tabsync_state \<Rightarrow> tabsync_state" where
  "ts_destroy c = c\<lparr>ts_syncQueue := [], ts_isProcessing := False\<rparr>"

datatype ts_event =
    TsRequestSync int tab_name real
  | TsAnimationFrame int
  | TsSettleBatch
  | TsSetScrolling bool
  | TsDestroy

fun ts_step :: "sync_env \<Rightarrow> tabsync_state \<Rightarrow> ts_event \<Rightarrow> tabsync_state" where
  "ts_step env c (TsRequestSync now tabName scrollY) = ts_requestSync env now tabName scrollY c"
| "ts_step env c (TsAnimationFrame now) = ts_animationFrame env now c"
| "ts_step env c TsSettleBatch = ts_settleBatch env c"
| "ts_step env c (TsSetScrolling b) = c\<lparr>ts_isScrolling := b\<rparr>"
| "ts_step env c TsDestroy = ts_destroy c"

definition ts_run :: "sync_env \<Rightarrow> ts_event list \<Rightarrow> tabsync_state \<Rightarrow> tabsync_state" where
  "ts_run env evs c = foldl (ts_step env) c evs"

section \<open>The class PerformanceMonitor\<close>

text \<open>A metric is the pair \<open>(timestamp, duration)\<close>.\<close>

definition MAX_METRICS :: nat where
  "MAX_METRICS = 10"

definition avgDuration :: "(int \<times> int) list \<Rightarrow> real" where
  "avgDuration ms = real_of_int (foldl (\<lambda>sum m. sum + snd m) 0 ms) / real (length ms)"

definition getOptimalStrategy :: "(int \<times> int) list \<Rightarrow> strategy" where
  "getOptimalStrategy ms =
     (if length ms < 3 then Normal
      else if avgDuration ms > 100 then Aggressive
      else if avgDuration ms > 50 then Moderate
      else Normal)"

text \<open>
  \<open>monitor_recordTabSwitch now startTime metrics\<close> is \<^verbatim>\<open>recordTabSwitch(startTime)\<close> called
  when the clock reads \<open>now\<close>: the strategy returned and the metrics kept.
\<close>

definition monitor_recordTabSwitch ::
  "int \<Rightarrow> int \<Rightarrow> (int \<times> int) list \<Rightarrow> strategy \<times> (int \<times> int) list" where
  "monitor_recordTabSwitch now startTime ms =
     (let duration = now - startTime;
          pushed = ms @ [(startTime, duration)];
          kept = (if length pushed > MAX_METRICS then tl pushed else pushed)
      in (getOptimalStrategy kept, kept))"

definition getAveragePerformance :: "(int \<times> int) list \<Rightarrow> real" where
  "getAveragePerformance ms = (if length ms = 0 then 0 else avgDuration ms)"

text \<open>The metrics after a series of calls, each given as \<open>(now, startTime)\<close>.\<close>

definition monitor_run :: "(int \<times> int) list \<Rightarrow> (int \<times> int) list \<Rightarrow> (int \<times> int) list" where
  "monitor_run calls ms = foldl (\<lambda>m c. snd (monitor_recordTabSwitch (fst c) (snd c) m)) ms calls"

section \<open>The class VirtualizedTabManager\<close>

record 'a tab_manager =
  windowSize :: int
  visibleTabs :: "tab_name list"
  tabCache :: "tab_name \<rightharpoonup> 'a"


definition new_tab_manager :: "int \<Rightarrow> 'a tab_manager" where
  "new_tab_manager w = \<lparr>windowSize = w, visibleTabs = [], tabCache = Map.empty\<rparr>"

text \<open>\<^verbatim>\<open>Set.prototype.add\<close> on an insertion-ordered set.\<close>

definition set_add :: "'a \<Rightarrow> 'a list \<Rightarrow> 'a list" where
  "set_add x xs = (if x \<in> set xs then xs else xs @ [x])"

definition window_start :: "int \<Rightarrow> int \<Rightarrow> int" where
  "window_start w currentIndex = max 0 (currentIndex - w div 2)"

definition window_end :: "int \<Rightarrow> int \<Rightarrow> int \<Rightarrow> int" where
  "window_end w start len = min (len - 1) (start + w - 1)"

text \<open>The loop \<^verbatim>\<open>for (let i = start; i <= end; i++) newVisible.add(tabNames[i])\<close>.\<close>

fun add_visible :: "tab_name list \<Rightarrow> int list \<Rightarrow> tab_name list \<Rightarrow> tab_name list" where
  "add_visible names [] newVisible = newVisible"
| "add_visible names (i # is) newVisible =
     add_visible names is (set_add (names ! nat i) newVisible)"

text \<open>The loop over the old visible set that deletes the cache of tabs no longer visible.\<close>

fun evict_hidden ::
  "tab_name list \<Rightarrow> tab_name list \<Rightarrow> (tab_name \<rightharpoonup> 'a) \<Rightarrow> (tab_name \<rightharpoonup> 'a)" where
  "evict_hidden newVisible [] cache = cache"
| "evict_hidden newVisible (t # ts) cache =
     evict_hidden newVisible ts (if t \<in> set newVisible then cache else cache(t := None))"

definition updateVisibility :: "int \<Rightarrow> tab_name list \<Rightarrow> 'a tab_manager \<Rightarrow> 'a tab_manager" where
  "updateVisibility currentIndex names m =
     (let start = window_start (windowSize m) currentIndex;
          end = window_end (windowSize m) start (int (length names));
          newVisible = add_visible names [start..end] []
      in m\<lparr>tabCache := evict_hidden newVisible (visibleTabs m) (tabCache m),
            visibleTabs := newVisible\<rparr>)"

definition isVisible :: "'a tab_manager \<Rightarrow> tab_name \<Rightarrow> bool" where
  "isVisible m t = (t \<in> set (visibleTabs m))"

definition cacheTab :: "tab_name \<Rightarrow> 'a \<Rightarrow> 'a tab_manager \<Rightarrow> 'a tab_manager" where
  "cacheTab t d m = (if t \<in> set (visibleTabs m) then m\<lparr>tabCache := (tabCache m)(t \<mapsto> d)\<rparr> else m)"

definition getCache :: "'a tab_manager \<Rightarrow> tab_name \<Rightarrow> 'a option" where
  "getCache m t = tabCache m t"

definition destroy :: "'a tab_manager \<Rightarrow> 'a tab_manager" where
  "destroy m = m\<lparr>visibleTabs := [], tabCache := Map.empty\<rparr>"

datatype 'a manager_op =
    UpdateVisibility int "tab_name list"
  | CacheTab tab_name 'a
  | Destroy

fun manager_step :: "'a tab_manager \<Rightarrow> 'a manager_op \<Rightarrow> 'a tab_manager" where
  "manager_step m (UpdateVisibility currentIndex names) = updateVisibility currentIndex names m"
| "manager_step m (CacheTab t d) = cacheTab t d m"
| "manager_step m Destroy = destroy m"

definition manager_run :: "'a manager_op list \<Rightarrow> 'a tab_manager \<Rightarrow> 'a tab_manager" where
  "manager_run ops m = foldl manager_step m ops"

text \<open>The tab names a window covers: those at the indices from \<open>start\<close> to \<open>end\<close>.\<close>

definition window_names :: "int \<Rightarrow> int \<Rightarrow> tab_name list \<Rightarrow> tab_name set" where
  "window_names w currentIndex names =
     (\<lambda>i. names ! nat i) `
       {window_start w currentIndex ..
        window_end w (window_start w currentIndex) (int (length names))}"

section \<open>The component Lazy\<close>

text \<open>
  The props of one \<^verbatim>\<open>Lazy\<close> instance that stay fixed here: the tab name it reads from the
  tab-name context, \<^verbatim>\<open>cancelLazyFadeIn\<close> (undefined counts as false) and
  \<^verbatim>\<open>mountDelayMs\<close> (default 50).
\<close>

record lazy_props =
  name :: tab_name
  cancelLazyFadeIn :: bool
  mountDelayMs :: int

definition defaultMountDelayMs :: int where
  "defaultMountDelayMs = 50"

text \<open>
  The state of the instance: the current value of the prop \<^verbatim>\<open>startMounted\<close> (\<open>None\<close> when
  it is not a boolean), the shared value \<^verbatim>\<open>focusedTab.value\<close> it reads, the React state
  \<^verbatim>\<open>canMount\<close>, the ref \<^verbatim>\<open>isSelfMounted\<close>, the shared values \<^verbatim>\<open>opacity\<close> and
  \<^verbatim>\<open>didTriggerLayout\<close>, the previous result of the focus reaction (\<open>None\<close> for
  \<^verbatim>\<open>null\<close>), and the pending \<^verbatim>\<open>setTimeout\<close> callbacks of \<^verbatim>\<open>startMountTimer\<close>, each
  with the time it is due and the \<^verbatim>\<open>focusedTab\<close> argument it captured.
\<close>

record lazy_state =
  startMounted :: "bool option"
  focusedTab :: tab_name
  canMount :: bool
  isSelfMounted :: bool
  opacity :: real
  didTriggerLayout :: bool
  wasFocused :: "bool option"
  mountTimers :: "(int \<times> tab_name) list"

text \<open>The first render: the initial values of the state and of the shared values.\<close>

definition lazy_render :: "lazy_props \<Rightarrow> bool option \<Rightarrow> tab_name \<Rightarrow> lazy_state" where
  "lazy_render p sm focus =
     (let shouldStartMounted = (case sm of Some b \<Rightarrow> b | None \<Rightarrow> focus = name p)
      in \<lparr>startMounted = sm, focusedTab = focus,
          canMount = (case sm of Some b \<Rightarrow> b | None \<Rightarrow> focus = name p),
          isSelfMounted = True,
          opacity = (if \<not> cancelLazyFadeIn p \<and> \<not> shouldStartMounted then 0 else 1),
          didTriggerLayout = False, wasFocused = None, mountTimers = []\<rparr>)"

definition startMountTimer :: "lazy_props \<Rightarrow> int \<Rightarrow> tab_name \<Rightarrow> lazy_state \<Rightarrow> lazy_state" where
  "startMountTimer p now focused s =
     s\<lparr>mountTimers := add_timer (now + mountDelayMs p, focused) (mountTimers s)\<rparr>"

text \<open>
  The reaction on \<^verbatim>\<open>focusedTab.value === name\<close>, run at time \<open>now\<close>: the test
  \<^verbatim>\<open>focused && !wasFocused && !canMount\<close>, then the previous result is replaced.
\<close>

definition focusReaction :: "lazy_props \<Rightarrow> int \<Rightarrow> lazy_state \<Rightarrow> lazy_state" where
  "focusReaction p now s =
     (let focused = (focusedTab s = name p);
          s1 = (if focused \<and> wasFocused s \<noteq> Some True \<and> \<not> canMount s
                then (if cancelLazyFadeIn p then s\<lparr>opacity := 1, canMount := True\<rparr>
                      else startMountTimer p now (focusedTab s) s)
                else s)
      in s1\<lparr>wasFocused := Some focused\<rparr>)"

text \<open>The effect on the prop \<^verbatim>\<open>startMounted\<close>, run when the prop takes the value \<open>sm\<close>.\<close>

definition startMountedEffect :: "lazy_props \<Rightarrow> bool option \<Rightarrow> lazy_state \<Rightarrow> lazy_state" where
  "startMountedEffect p sm s =
     (let s1 = s\<lparr>startMounted := sm\<rparr>
      in if sm = Some True \<and> \<not> canMount s1 then s1\<lparr>canMount := True\<rparr>
         else if sm = Some False \<and> canMount s1 \<and> focusedTab s1 \<noteq> name p then s1
         else s1)"

text \<open>The callback of \<^verbatim>\<open>startMountTimer\<close>, for the captured argument \<open>focused\<close>.\<close>

definition mountTimerCallback :: "lazy_props \<Rightarrow> tab_name \<Rightarrow> lazy_state \<Rightarrow> lazy_state" where
  "mountTimerCallback p focused s =
     (if focused = name p then (if isSelfMounted s then s\<lparr>canMount := True\<rparr> else s) else s)"

definition fireMountTimer :: "lazy_props \<Rightarrow> int \<Rightarrow> lazy_state \<Rightarrow> lazy_state" where
  "fireMountTimer p now s =
     (case mountTimers s of
        [] \<Rightarrow> s
      | x # rest \<Rightarrow>
          (if fst x \<le> now then mountTimerCallback p (snd x) (s\<lparr>mountTimers := rest\<rparr>) else s))"

text \<open>
  \<^verbatim>\<open>onLayout\<close> of the animated view, which is rendered once \<^verbatim>\<open>canMount\<close> holds and the
  fade is not cancelled, and the reaction on \<^verbatim>\<open>didTriggerLayout\<close>; the animation
  \<^verbatim>\<open>withTiming(1)\<close> is taken at its end value.
\<close>

definition onLayout :: "lazy_props \<Rightarrow> lazy_state \<Rightarrow> lazy_state" where
  "onLayout p s =
     (if canMount s \<and> \<not> cancelLazyFadeIn p
      then (if \<not> didTriggerLayout s \<and> opacity s \<noteq> 1
            then s\<lparr>didTriggerLayout := True, opacity := 1\<rparr>
            else s\<lparr>didTriggerLayout := True\<rparr>)
      else s)"

datatype lazy_event =
    FocusChange int tab_name
  | MountTimerFires int
  | StartMountedProp "bool option"
  | Layout
  | Unmount

fun lazy_step :: "lazy_props \<Rightarrow> lazy_state \<Rightarrow> lazy_event \<Rightarrow> lazy_state" where
  "lazy_step p s (FocusChange now tab) = focusReaction p now (s\<lparr>focusedTab := tab\<rparr>)"
| "lazy_step p s (MountTimerFires now) = fireMountTimer p now s"
| "lazy_step p s (StartMountedProp sm) = startMountedEffect p sm s"
| "lazy_step p s Layout = onLayout p s"
| "lazy_step p s Unmount = s\<lparr>isSelfMounted := False\<rparr>"

definition lazy_run :: "lazy_props \<Rightarrow> lazy_event list \<Rightarrow> lazy_state \<Rightarrow> lazy_state" where
  "lazy_run p evs s = foldl (lazy_step p) s evs"

text \<open>Mounting the component at time \<open>now\<close>: the first render, then the first run of the reaction.\<close>

definition lazy_mount :: "lazy_props \<Rightarrow> bool option \<Rightarrow> tab_name \<Rightarrow> int \<Rightarrow> lazy_state" where
  "lazy_mount p sm focus now = focusReaction p now (lazy_render p sm focus)"

text \<open>Tab A with the default props, in a container whose focus starts on B.\<close>

definition lazy_A :: lazy_props where
  "lazy_A = \<lparr>name = ''A'', cancelLazyFadeIn = False, mountDelayMs = defaultMountDelayMs\<rparr>"

section \<open>Auxiliary notions for the properties\<close>

text \<open>A series of calls \<^verbatim>\<open>recordTabSwitch(d)\<close> of the hook, one per element.\<close>

definition record_all :: "int list \<Rightarrow> sync_state \<Rightarrow> sync_state" where
  "record_all ds s = foldl (\<lambda>s d. recordTabSwitch d s) s ds"

definition perf_fields :: "sync_state \<Rightarrow> strategy \<times> int list" where
  "perf_fields s = (performanceStrategy s, switchTimes s)"

definition strategy_derived :: "sync_state \<Rightarrow> bool" where
  "strategy_derived s = (performanceStrategy s = strategy_of_samples (switchTimes s))"

definition no_cleanup :: "event \<Rightarrow> bool" where
  "no_cleanup e = (e \<noteq> Cleanup)"

text \<open>
  Three tab switches that each take 120 ms to settle, a fourth one started at 1000, the
  unmount cleanup, and the timeout of the fourth switch running at 1100.
\<close>

definition switches_then_cleanup :: "event list" where
  "switches_then_cleanup =
     [SmartTabSwitch 0 1 True, FireTimer 120, SmartTabSwitch 200 0 True, FireTimer 320,
      SmartTabSwitch 400 1 True, FireTimer 520,
      SmartTabSwitch 1000 0 True, Cleanup, FireTimer 1100]"

text \<open>The manager after a series of operations on a fresh one of window size \<open>w\<close>.\<close>

definition reached :: "'a manager_op list \<Rightarrow> int \<Rightarrow> 'a tab_manager" where
  "reached ops w = manager_run ops (new_tab_manager w)"

definition cache_contained :: "'a tab_manager \<Rightarrow> bool" where
  "cache_contained m = (\<forall>t. tabCache m t \<noteq> None \<longrightarrow> t \<in> set (visibleTabs m))"

definition five_tabs :: "tab_name list" where
  "five_tabs = [''A'', ''B'', ''C'', ''D'', ''E'']"

definition ops_demo :: "int manager_op list" where
  "ops_demo =
     [UpdateVisibility 0 five_tabs, CacheTab ''A'' 10, CacheTab ''B'' 20, CacheTab ''E'' 50]"





text \<open>The corrections issued so far to one tab by the hook.\<close>

definition corrections_to :: "tab_name \<Rightarrow> sync_state \<Rightarrow> (tab_name \<times> real) list" where
  "corrections_to tab s = filter (\<lambda>c. fst c = tab) (scrolled s)"

text \<open>The test of \<^verbatim>\<open>requestSync\<close> that makes it return at once.\<close>

definition tooFar :: "sync_env \<Rightarrow> tab_name \<Rightarrow> bool" where
  "tooFar env tabName =
     (\<bar>requestSync_currentIndex env tabName - requestSync_focusedIndex env\<bar> > 1)"

text \<open>
  The hook keeps no flag for a tab switch.  A switch started by \<^verbatim>\<open>smartTabSwitch\<close> is in
  progress until the timeout it set has run, that is, while that timeout is pending.
\<close>

definition switchInProgress :: "sync_state \<Rightarrow> bool" where
  "switchInProgress s = list_ex (\<lambda>x. snd x \<noteq> ProcessBatch) (timers s)"

text \<open>Three and four tabs, every one with a mounted surface, and a content inset of 20.\<close>

definition env_abc :: sync_env where
  "env_abc =
     \<lparr>refMap = [''A'' \<mapsto> True, ''B'' \<mapsto> True, ''C'' \<mapsto> True], contentInset = 20,
      tabNames = [''A'', ''B'', ''C'']\<rparr>"

definition env_abcd :: sync_env where
  "env_abcd =
     \<lparr>refMap = [''A'' \<mapsto> True, ''B'' \<mapsto> True, ''C'' \<mapsto> True, ''D'' \<mapsto> True],
      contentInset = 20, tabNames = [''A'', ''B'', ''C'', ''D'']\<rparr>"

text \<open>Three tabs of which B has no entry in \<^verbatim>\<open>refMap\<close>.\<close>

definition env_detached :: sync_env where
  "env_detached =
     \<lparr>refMap = [''A'' \<mapsto> True, ''C'' \<mapsto> True], contentInset = 20,
      tabNames = [''A'', ''B'', ''C'']\<rparr>"

text \<open>
  The hook after three tab switches that each took 60 ms to settle and one sync request
  processed at time 1000.
\<close>

definition moderate_events :: "event list" where
  "moderate_events =
     [SmartTabSwitch 0 1 True, FireTimer 60, SmartTabSwitch 100 0 True, FireTimer 160,
      SmartTabSwitch 200 1 True, FireTimer 260, RequestSync 1000 ''A'' 120, RunInteractions]"

definition moderate_state :: sync_state where
  "moderate_state = run env_abc moderate_events initial_sync_state"

text \<open>Two sync requests for one tab, at the times \<open>t1\<close> and \<open>t2\<close>, on the hook.\<close>

definition two_requests ::
  "sync_env \<Rightarrow> tab_name \<Rightarrow> int \<Rightarrow> real \<Rightarrow> int \<Rightarrow> real \<Rightarrow> sync_state \<Rightarrow> sync_state" where
  "two_requests env tab t1 v1 t2 v2 s = requestSync env t2 tab v2 (requestSync env t1 tab v1 s)"

text \<open>The hook after one sync request for A was processed at time 1000.\<close>

definition detached_start :: sync_state where
  "detached_start =
     run env_detached [RequestSync 1000 ''A'' 120, RunInteractions] initial_sync_state"

definition abc_start :: sync_state where
  "abc_start = run env_abc [RequestSync 1000 ''A'' 120, RunInteractions] initial_sync_state"

text \<open>
  On the class, with B detached: a request for B is processed at 1000 (its batch starts
  no \<^verbatim>\<open>performSync\<close> and completes), then two requests for A arrive at 1005 and 1010, and
  the two animation frames they asked for run at 1016.  On the hook: a request for A is
  processed at 1000, the same two requests follow, and their two timers and the
  interaction callback run.
\<close>

definition class_pair_events :: "ts_event list" where
  "class_pair_events =
     [TsRequestSync 1000 ''B'' 120, TsSettleBatch,
      TsRequestSync 1005 ''A'' 50, TsRequestSync 1010 ''A'' 70,
      TsAnimationFrame 1016, TsAnimationFrame 1016]"

definition hook_pair_events :: "event list" where
  "hook_pair_events =
     [RequestSync 1000 ''A'' 120, RunInteractions,
      RequestSync 1005 ''A'' 50, RequestSync 1010 ''A'' 70,
      FireTimer 1016, FireTimer 1016, RunInteractions]"

text \<open>An event that does not end a scroll gesture.\<close>

definition keeps_scrolling :: "event \<Rightarrow> bool" where
  "keeps_scrolling e = (e \<noteq> SetScrolling False)"

text \<open>A tab switch started at time 1000 on the fresh hook, and a request for B during it.\<close>

definition switch_events :: "event list" where
  "switch_events = [SmartTabSwitch 1000 1 True, RequestSync 1010 ''B'' 120, RunInteractions]"

text \<open>No correction has been issued or scheduled since \<open>s\<close>, and the gesture goes on.\<close>

definition suspended :: "sync_state \<Rightarrow> sync_state \<Rightarrow> bool" where
  "suspended s s' = (isScrolling s' \<and> interactions s' = [] \<and> scrolled s' = scrolled s)"

text \<open>Two sync requests ten milliseconds apart.\<close>

definition ten_apart ::
  "sync_env \<Rightarrow> int \<Rightarrow> tab_name \<Rightarrow> real \<Rightarrow> tab_name \<Rightarrow> real \<Rightarrow> sync_state \<Rightarrow> sync_state" where
  "ten_apart env t tab v tab' v' s = requestSync env (t + 10) tab' v' (requestSync env t tab v s)"

text \<open>
  Under strategy \<open>Moderate\<close>, with the last batch processed at 1000: a request at 1030 and
  one at 1040, and a request at 2000 and one at 2010, with the timers and interaction
  callbacks running as they fall due.
\<close>

definition late_pair_events :: "event list" where
  "late_pair_events =
     [RequestSync 1030 ''B'' 70, FireTimer 1033, RunInteractions,
      RequestSync 1040 ''B'' 90, FireTimer 1066, RunInteractions]"

definition idle_pair_events :: "event list" where
  "idle_pair_events =
     [RequestSync 2000 ''B'' 70, RunInteractions,
      RequestSync 2010 ''B'' 90, FireTimer 2033, RunInteractions]"

chapter \<open>Properties\<close>

section \<open>The sample buffer and the strategy\<close>

lemma some_truth: "\<exists>x::bool. x"
  by blast

lemma record_all_snoc: "record_all (ds @ [d]) s = recordTabSwitch d (record_all ds s)"
  by (simp add: record_all_def)

lemma tl_drop_snoc:
  assumes "length ds \<ge> 10"
  shows "tl (drop (length ds - 10) ds @ [d]) = drop (Suc (length ds) - 10) (ds @ [d])"
proof -
  have ne: "drop (length ds - 10) ds \<noteq> []" using assms by simp
  have "tl (drop (length ds - 10) ds @ [d]) = tl (drop (length ds - 10) ds) @ [d]"
    using ne by simp
  also have "tl (drop (length ds - 10) ds) = drop (Suc (length ds - 10)) ds"
    by (simp add: drop_Suc tl_drop)
  also have "Suc (length ds - 10) = Suc (length ds) - 10" using assms by simp
  finally show ?thesis using assms by simp
qed

lemma switchTimes_recordTabSwitch:
  "switchTimes (recordTabSwitch d s) =
     (if length (switchTimes s @ [d]) > 10 then tl (switchTimes s @ [d]) else switchTimes s @ [d])"
  by (simp add: recordTabSwitch_def Let_def)

lemma switchTimes_record_all:
  "switchTimes (record_all ds initial_sync_state) = drop (length ds - 10) ds"
proof (induction ds rule: rev_induct)
  case Nil
  show ?case by (simp add: record_all_def initial_sync_state_def)
next
  case (snoc d ds)
  show ?case
  proof (cases "length ds \<ge> 10")
    case True
    then show ?thesis
      using snoc tl_drop_snoc[OF True, of d]
      by (simp add: record_all_snoc switchTimes_recordTabSwitch)
  next
    case False
    then show ?thesis
      using snoc by (simp add: record_all_snoc switchTimes_recordTabSwitch)
  qed
qed



lemma strategy_recordTabSwitch:
  assumes "strategy_derived s"
  shows "strategy_derived (recordTabSwitch d s)"
proof (cases "length (switchTimes s @ [d]) > 10")
  case True
  then show ?thesis
    by (simp add: strategy_derived_def recordTabSwitch_def Let_def strategy_of_samples_def)
next
  case False
  show ?thesis
  proof (cases "length (switchTimes s @ [d]) \<ge> 3")
    case True
    with False show ?thesis
      by (simp add: strategy_derived_def recordTabSwitch_def Let_def strategy_of_samples_def)
  next
    case short: False
    then have "length (switchTimes s) < 3" by simp
    then have "performanceStrategy s = Normal"
      using assms by (simp add: strategy_derived_def strategy_of_samples_def)
    with False short show ?thesis
      by (simp add: strategy_derived_def recordTabSwitch_def Let_def strategy_of_samples_def)
  qed
qed

lemma perf_processBatch: "perf_fields (processBatch now s) = perf_fields s"
  by (simp add: perf_fields_def processBatch_def)

lemma perf_requestSync: "perf_fields (requestSync env now t y s) = perf_fields s"
  by (simp add: requestSync_def Let_def perf_processBatch) (simp add: perf_fields_def)

lemma perf_smartTabSwitch: "perf_fields (smartTabSwitch now i c s) = perf_fields s"
  by (simp add: perf_fields_def smartTabSwitch_def Let_def)

lemma perf_runInteractions: "perf_fields (runInteractions env s) = perf_fields s"
  by (simp add: perf_fields_def runInteractions_def interactionCallback_def split: list.splits)

lemma strategy_derived_perf:
  "perf_fields s' = perf_fields s \<Longrightarrow> strategy_derived s \<Longrightarrow> strategy_derived s'"
  by (simp add: perf_fields_def strategy_derived_def)

lemma strategy_derived_fireTimer:
  assumes "strategy_derived s"
  shows "strategy_derived (fireTimer now s)"
proof -
  have r: "strategy_derived (s\<lparr>timers := rest\<rparr>)" for rest
    using assms by (simp add: strategy_derived_def)
  show ?thesis
    using assms r
    by (auto simp: fireTimer_def split: list.splits task.splits
          intro: strategy_derived_perf[OF perf_processBatch] strategy_recordTabSwitch)
qed

lemma strategy_derived_step:
  assumes "strategy_derived s" and "no_cleanup e"
  shows "strategy_derived (step env s e)"
proof (cases e)
  case (RequestSync now t y)
  then show ?thesis using assms strategy_derived_perf[OF perf_requestSync] by simp
next
  case (SmartTabSwitch now i c)
  then show ?thesis using assms strategy_derived_perf[OF perf_smartTabSwitch] by simp
next
  case (FireTimer now)
  then show ?thesis using assms strategy_derived_fireTimer by simp
next
  case RunInteractions
  then show ?thesis using assms strategy_derived_perf[OF perf_runInteractions] by simp
next
  case (SetScrolling b)
  then show ?thesis using assms by (simp add: strategy_derived_def)
next
  case Cleanup
  then show ?thesis using assms by (simp add: no_cleanup_def)
qed

lemma strategy_derived_run:
  "strategy_derived s \<Longrightarrow> list_all no_cleanup evs \<Longrightarrow> strategy_derived (run env evs s)"
  by (induction evs rule: rev_induct) (simp_all add: run_def strategy_derived_step)

lemma strategy_derived_initial: "strategy_derived initial_sync_state"
  by (simp add: strategy_derived_def initial_sync_state_def strategy_of_samples_def)

lemma strategy_derived_record_all: "strategy_derived s \<Longrightarrow> strategy_derived (record_all ds s)"
  by (induction ds rule: rev_induct) (simp_all add: record_all_def strategy_recordTabSwitch)

lemma avgDuration_avgTime: "avgDuration ms = avgTime (map snd ms)"
proof -
  have "foldl (\<lambda>sum m. sum + snd m) a ms = foldl (\<lambda>a b. a + b) a (map snd ms)" for a
    by (induction ms arbitrary: a) simp_all
  then show ?thesis by (simp add: avgDuration_def avgTime_def)
qed

lemma getOptimalStrategy_samples: "getOptimalStrategy ms = strategy_of_samples (map snd ms)"
  by (simp add: getOptimalStrategy_def strategy_of_samples_def avgDuration_avgTime)





text \<open>
  What holds of the strategy: as long as the cleanup has not run, the hook's strategy is
  the function of the samples it holds; \<^verbatim>\<open>PerformanceMonitor.recordTabSwitch\<close> appends
  the metric, drops the oldest beyond ten, and returns that function of the durations it
  keeps; and the two example series come out as \<open>Normal\<close> and \<open>Aggressive\<close>.
\<close>

lemma strategy_while_mounted:
  "list_all no_cleanup evs \<Longrightarrow>
   performanceStrategy (run env evs initial_sync_state) =
     strategy_of_samples (switchTimes (run env evs initial_sync_state))"
  using strategy_derived_run[OF strategy_derived_initial] by (simp add: strategy_derived_def)

lemma strategy_record_all:
  "performanceStrategy (record_all ds initial_sync_state) =
     strategy_of_samples (drop (length ds - 10) ds)"
  using strategy_derived_record_all[OF strategy_derived_initial, of ds]
  by (simp add: strategy_derived_def switchTimes_record_all)

lemma monitor_recordTabSwitch_result:
  "snd (monitor_recordTabSwitch now startTime ms) =
     (if length (ms @ [(startTime, now - startTime)]) > 10
      then tl (ms @ [(startTime, now - startTime)]) else ms @ [(startTime, now - startTime)])
   \<and> fst (monitor_recordTabSwitch now startTime ms) =
       strategy_of_samples (map snd (snd (monitor_recordTabSwitch now startTime ms)))"
  by (simp add: monitor_recordTabSwitch_def MAX_METRICS_def Let_def getOptimalStrategy_samples)

lemma strategy_examples:
  "performanceStrategy (record_all [20, 30, 25] initial_sync_state) = Normal
   \<and> performanceStrategy (record_all [120, 130, 110] initial_sync_state) = Aggressive
   \<and> getOptimalStrategy (monitor_run [(1020, 1000), (2030, 2000), (3025, 3000)] []) = Normal
   \<and> getOptimalStrategy (monitor_run [(1120, 1000), (2130, 2000), (3110, 3000)] []) = Aggressive"
  by (simp add: record_all_def recordTabSwitch_def initial_sync_state_def avgTime_def
        monitor_run_def monitor_recordTabSwitch_def getOptimalStrategy_def avgDuration_def
        MAX_METRICS_def Let_def)

lemmas sync_eval = some_truth
  run_def requestSync_def processBatch_def getThrottleInterval_def runInteractions_def
  interactionCallback_def requestSync_currentIndex_def requestSync_focusedIndex_def
  smartTabSwitch_def fireTimer_def recordTabSwitch_def avgTime_def initial_sync_state_def
  Let_def

text \<open>
  C7.  The hook's \<^verbatim>\<open>recordTabSwitch\<close> sets the strategy only when it holds three samples
  or more, and the cleanup empties the samples without touching the strategy.  After three
  tab switches of 120 ms the strategy is \<open>Aggressive\<close>; a fourth switch is started at
  1000, the component unmounts, and the timeout of the fourth switch runs at 1100: the hook
  then holds the single sample 100 with the strategy \<open>Aggressive\<close>, where the function of
  the samples gives \<open>Normal\<close>, as does \<^verbatim>\<open>PerformanceMonitor\<close> for a first sample of 100.
\<close>

theorem strategy_kept_after_cleanup:
  "switchTimes (run env_abc (take 6 switches_then_cleanup) initial_sync_state) = [120, 120, 120]
   \<and> performanceStrategy (run env_abc (take 6 switches_then_cleanup) initial_sync_state)
       = Aggressive
   \<and> timers (run env_abc (take 8 switches_then_cleanup) initial_sync_state)
       = [(1100, RecordSwitch 1000)]
   \<and> switchTimes (run env_abc (take 8 switches_then_cleanup) initial_sync_state) = []
   \<and> switchTimes (run env_abc switches_then_cleanup initial_sync_state) = [100]
   \<and> performanceStrategy (run env_abc switches_then_cleanup initial_sync_state) = Aggressive
   \<and> strategy_of_samples [100] = Normal
   \<and> monitor_recordTabSwitch 1100 1000 [] = (Normal, [(1000, 100)])"
  by (simp add: switches_then_cleanup_def env_abc_def strategy_of_samples_def
        monitor_recordTabSwitch_def getOptimalStrategy_def MAX_METRICS_def sync_eval)


section \<open>The virtualization window\<close>

lemma set_set_add: "set (set_add x xs) = insert x (set xs)"
  by (auto simp: set_add_def)

lemma set_add_visible:
  "set (add_visible names is acc) = set acc \<union> (\<lambda>i. names ! nat i) ` set is"
  by (induction "is" arbitrary: acc) (auto simp: set_set_add)

lemma evict_hidden_apply:
  "evict_hidden nv ts c t = (if t \<in> set ts \<and> t \<notin> set nv then None else c t)"
  by (induction ts arbitrary: c) auto

lemma visibleTabs_updateVisibility:
  "set (visibleTabs (updateVisibility i names m)) = window_names (windowSize m) i names"
  by (simp add: updateVisibility_def Let_def set_add_visible window_names_def)

lemma tabCache_updateVisibility:
  "tabCache (updateVisibility i names m) t =
     (if t \<in> set (visibleTabs m) \<and> t \<notin> window_names (windowSize m) i names then None
      else tabCache m t)"
  by (simp add: updateVisibility_def Let_def evict_hidden_apply set_add_visible window_names_def)



lemma cache_contained_step:
  assumes "cache_contained m"
  shows "cache_contained (manager_step m op)"
proof (cases op)
  case (UpdateVisibility i names)
  then show ?thesis
    using assms
    by (auto simp: cache_contained_def tabCache_updateVisibility visibleTabs_updateVisibility)
next
  case (CacheTab t d)
  then show ?thesis using assms by (auto simp: cache_contained_def cacheTab_def)
next
  case Destroy
  then show ?thesis by (simp add: cache_contained_def destroy_def)
qed

lemma cache_contained_reached: "cache_contained (reached ops w)"
proof (induction ops rule: rev_induct)
  case Nil
  show ?case by (simp add: reached_def manager_run_def cache_contained_def new_tab_manager_def)
next
  case (snoc op ops)
  then show ?case
    using cache_contained_step[of "reached ops w" op] by (simp add: reached_def manager_run_def)
qed













lemmas manager_eval =
  reached_def manager_run_def new_tab_manager_def updateVisibility_def cacheTab_def
  destroy_def getCache_def isVisible_def window_start_def window_end_def set_add_def
  five_tabs_def Let_def upto.simps

lemma reached_demo:
  "reached ops_demo 3 =
     \<lparr>windowSize = 3, visibleTabs = [''A'', ''B'', ''C''],
      tabCache = [''A'' \<mapsto> 10, ''B'' \<mapsto> 20]\<rparr>"
  by (simp add: ops_demo_def manager_eval)




text \<open>
  C10.  After any series of \<^verbatim>\<open>updateVisibility\<close>, \<^verbatim>\<open>cacheTab\<close> and \<^verbatim>\<open>destroy\<close>
  operations on a fresh manager, every tab with a cache entry is in the visible set;
  \<^verbatim>\<open>cacheTab\<close> on a tab that is not visible changes nothing, and \<^verbatim>\<open>getCache\<close> returns
  nothing for such a tab, before and after.
\<close>

theorem cache_containment:
  "(getCache (reached ops w) t \<noteq> None \<longrightarrow> isVisible (reached ops w) t)
   \<and> (\<not> isVisible (reached ops w) t \<longrightarrow>
        cacheTab t d (reached ops w) = reached ops w
        \<and> getCache (reached ops w) t = None
        \<and> getCache (cacheTab t d (reached ops w)) t = None)"
proof -
  have c: "getCache (reached ops w) t \<noteq> None \<longrightarrow> isVisible (reached ops w) t"
    using cache_contained_reached[of ops w]
    by (simp add: cache_contained_def getCache_def isVisible_def)
  have n: "\<not> isVisible (reached ops w) t \<longrightarrow> cacheTab t d (reached ops w) = reached ops w"
    by (simp add: cacheTab_def isVisible_def)
  show ?thesis using c n by auto
qed

text \<open>
  The containment theorem at the same manager: B is cached and visible; E was offered to
  the cache while outside the window and is absent.
\<close>

theorem cache_containment_witness:
  "getCache (reached ops_demo 3) ''B'' = Some 20
   \<and> isVisible (reached ops_demo 3) ''B''
   \<and> \<not> isVisible (reached ops_demo 3) ''E''
   \<and> cacheTab ''E'' 50 (reached ops_demo 3) = reached ops_demo 3
   \<and> getCache (reached ops_demo 3) ''E'' = None
   \<and> getCache (cacheTab ''E'' 50 (reached ops_demo 3)) ''E'' = None"
proof -
  have b: "getCache (reached ops_demo 3) ''B'' = Some 20"
    by (simp add: reached_demo getCache_def)
  have e: "\<not> isVisible (reached ops_demo 3) ''E''"
    by (simp add: reached_demo isVisible_def)
  show ?thesis
    using b e cache_containment[of ops_demo 3 "''B''"] cache_containment[of ops_demo 3 "''E''" 50]
    by simp
qed

section \<open>The lazy mount\<close>

lemma canMount_focusReaction: "canMount s \<Longrightarrow> canMount (focusReaction p now s)"
  by (simp add: focusReaction_def Let_def)

lemma canMount_startMountedEffect: "canMount s \<Longrightarrow> canMount (startMountedEffect p sm s)"
  by (simp add: startMountedEffect_def Let_def)

lemma canMount_fireMountTimer: "canMount s \<Longrightarrow> canMount (fireMountTimer p now s)"
  by (simp add: fireMountTimer_def mountTimerCallback_def split: list.splits)

lemma canMount_onLayout: "canMount s \<Longrightarrow> canMount (onLayout p s)"
  by (simp add: onLayout_def)

lemma canMount_step: "canMount s \<Longrightarrow> canMount (lazy_step p s e)"
  by (cases e)
     (simp_all add: canMount_focusReaction canMount_startMountedEffect canMount_fireMountTimer
        canMount_onLayout)

text \<open>
  C6.  Once \<^verbatim>\<open>canMount\<close> is true it stays true: no series of focus changes, changes of the
  prop \<^verbatim>\<open>startMounted\<close>, timer callbacks, layouts or the unmount cleanup sets it back to
  false.
\<close>

theorem sticky_visibility: "canMount s \<Longrightarrow> canMount (lazy_run p evs s)"
  by (induction evs rule: rev_induct) (simp_all add: lazy_run_def canMount_step)

lemmas lazy_eval =
  lazy_run_def lazy_mount_def lazy_render_def focusReaction_def startMountTimer_def
  startMountedEffect_def fireMountTimer_def mountTimerCallback_def onLayout_def lazy_A_def
  defaultMountDelayMs_def Let_def

text \<open>
  The theorem at tab A mounted while focused, then losing and regaining focus, with
  \<^verbatim>\<open>startMounted\<close> turned to false and back to undefined.
\<close>

theorem sticky_visibility_witness:
  "canMount (lazy_mount lazy_A None ''A'' 0)
   \<and> canMount (lazy_run lazy_A
        [FocusChange 10 ''B'', StartMountedProp (Some False), FocusChange 20 ''C'',
         MountTimerFires 100, FocusChange 200 ''A'', StartMountedProp None, Layout]
        (lazy_mount lazy_A None ''A'' 0))"
proof -
  have c: "canMount (lazy_mount lazy_A None ''A'' 0)"
    by (simp add: lazy_eval)
  from sticky_visibility[OF c] c show ?thesis by simp
qed

text \<open>
  C3.  The callback of \<^verbatim>\<open>startMountTimer\<close> compares the argument it captured when the
  timer was started with the tab's name, not the focus at the time it fires.  Tab A is not
  mounted and B is focused; focus moves to A at time 100, which starts a timer due at 150,
  and back to B at 110.  When the timer fires at 150 the focus is on B and A is mounted all
  the same.
\<close>

theorem mount_timer_ignores_focus_change:
  "\<not> canMount (lazy_mount lazy_A None ''B'' 0)
   \<and> mountTimers (lazy_run lazy_A [FocusChange 100 ''A''] (lazy_mount lazy_A None ''B'' 0))
       = [(150, ''A'')]
   \<and> focusedTab (lazy_run lazy_A [FocusChange 100 ''A'', FocusChange 110 ''B'']
        (lazy_mount lazy_A None ''B'' 0)) = ''B''
   \<and> \<not> canMount (lazy_run lazy_A [FocusChange 100 ''A'', FocusChange 110 ''B'']
        (lazy_mount lazy_A None ''B'' 0))
   \<and> focusedTab (lazy_run lazy_A [FocusChange 100 ''A'', FocusChange 110 ''B'', MountTimerFires 150]
        (lazy_mount lazy_A None ''B'' 0)) = ''B''
   \<and> canMount (lazy_run lazy_A [FocusChange 100 ''A'', FocusChange 110 ''B'', MountTimerFires 150]
        (lazy_mount lazy_A None ''B'' 0))"
  by (simp add: lazy_eval)

section \<open>The sync scheduler\<close>


lemma moderate_state_eq:
  "moderate_state =
     \<lparr>syncQueue = [], isProcessing = False, lastProcessTime = 1000,
      performanceStrategy = Moderate, switchTimes = [60, 60, 60], isScrolling = False,
      timers = [], interactions = [], scrolled = [(''A'', 100)], setPageCalls = [1, 0, 1]\<rparr>"
  by (simp add: moderate_state_def moderate_events_def env_abc_def sync_eval)

lemma tooFar_abc: "\<not> tooFar env_abc ''A''" "\<not> tooFar env_abc ''B''" "tooFar env_abc ''C''"
  by (simp_all add: tooFar_def env_abc_def requestSync_currentIndex_def requestSync_focusedIndex_def)

lemma requestSync_far: "tooFar env tab \<Longrightarrow> requestSync env now tab v s = s"
  by (simp add: requestSync_def tooFar_def)

lemma requestSync_deferred:
  "\<not> tooFar env tab \<Longrightarrow> now - lastProcessTime s < getThrottleInterval s \<Longrightarrow>
   requestSync env now tab v s =
     s\<lparr>syncQueue := queue_set tab v (syncQueue s),
       timers := add_timer (lastProcessTime s + getThrottleInterval s, ProcessBatch) (timers s)\<rparr>"
  by (simp add: requestSync_def tooFar_def Let_def getThrottleInterval_def add.commute)

lemma requestSync_immediate:
  "\<not> tooFar env tab \<Longrightarrow> getThrottleInterval s \<le> now - lastProcessTime s \<Longrightarrow>
   requestSync env now tab v s =
     processBatch now (s\<lparr>syncQueue := queue_set tab v (syncQueue s)\<rparr>)"
  by (simp add: requestSync_def tooFar_def Let_def getThrottleInterval_def)

lemma queue_set_twice: "queue_set k v2 (queue_set k v1 q) = queue_set k v2 q"
  by (induction q) auto

lemma queue_set_nonempty: "queue_set k v q \<noteq> []"
  by (cases q) auto

lemma keys_queue_set: "set (map fst (queue_set k v q)) = insert k (set (map fst q))"
  by (induction q) auto

lemma distinct_queue_set: "distinct (map fst q) \<Longrightarrow> distinct (map fst (queue_set k v q))"
  by (induction q) (auto simp: keys_queue_set[simplified])

lemma filter_absent: "k \<notin> set (map fst q) \<Longrightarrow> filter (\<lambda>e. fst e = k) q = []"
  by (induction q) auto

lemma filter_queue_set:
  "distinct (map fst q) \<Longrightarrow> filter (\<lambda>e. fst e = k) (queue_set k v q) = [(k, v)]"
  by (induction q) (auto simp: filter_absent)

lemma map_of_queue_set: "map_of (queue_set k v q) k = Some v"
  by (induction q) auto

lemma map_of_queue_set_other: "k' \<noteq> k \<Longrightarrow> map_of (queue_set k v q) k' = map_of q k'"
  by (induction q) auto

lemma filter_syncEntries_scrolls:
  "filter (\<lambda>c. fst c = k) (syncEntries_scrolls env q) =
   syncEntries_scrolls env (filter (\<lambda>e. fst e = k) q)"
  by (induction q) auto

lemma drain_scrolled:
  "\<not> isScrolling s \<Longrightarrow> \<not> isProcessing s \<Longrightarrow> syncQueue s \<noteq> [] \<Longrightarrow> interactions s = [] \<Longrightarrow>
   runInteractions env (processBatch now s) =
     s\<lparr>syncQueue := [], isProcessing := False, lastProcessTime := now,
       scrolled := scrolled s @ syncEntries_scrolls env (syncQueue s)\<rparr>"
  by (simp add: processBatch_def runInteractions_def interactionCallback_def)

lemma processBatch_empty: "syncQueue s = [] \<Longrightarrow> processBatch now s = s"
  by (simp add: processBatch_def)

lemma processBatch_scrolling: "isScrolling s \<Longrightarrow> processBatch now s = s"
  by (simp add: processBatch_def)

lemma processBatch_busy: "isProcessing s \<Longrightarrow> processBatch now s = s"
  by (simp add: processBatch_def)

lemma processBatch_twice: "processBatch now' (processBatch now s) = processBatch now s"
  by (simp add: processBatch_def)


lemma two_requests_deferred:
  assumes "\<not> tooFar env tab"
    and "t1 - lastProcessTime s < getThrottleInterval s"
    and "t2 - lastProcessTime s < getThrottleInterval s"
  shows "two_requests env tab t1 v1 t2 v2 s =
     s\<lparr>syncQueue := queue_set tab v2 (syncQueue s),
       timers := add_timer (lastProcessTime s + getThrottleInterval s, ProcessBatch)
         (add_timer (lastProcessTime s + getThrottleInterval s, ProcessBatch) (timers s))\<rparr>"
proof -
  let ?s1 = "requestSync env t1 tab v1 s"
  have s1: "?s1 = s\<lparr>syncQueue := queue_set tab v1 (syncQueue s),
       timers := add_timer (lastProcessTime s + getThrottleInterval s, ProcessBatch) (timers s)\<rparr>"
    using assms by (simp add: requestSync_deferred)
  have l: "lastProcessTime ?s1 = lastProcessTime s" and g: "getThrottleInterval ?s1 = getThrottleInterval s"
    by (simp_all add: s1 getThrottleInterval_def)
  have "requestSync env t2 tab v2 ?s1 =
      ?s1\<lparr>syncQueue := queue_set tab v2 (syncQueue ?s1),
       timers := add_timer (lastProcessTime ?s1 + getThrottleInterval ?s1, ProcessBatch) (timers ?s1)\<rparr>"
    using assms by (intro requestSync_deferred) (simp_all add: l g)
  then show ?thesis
    by (simp add: two_requests_def l g) (simp add: s1 queue_set_twice)
qed

lemma corrections_drain:
  assumes "distinct (map fst q)" and "refMap env tab \<noteq> None"
  shows "filter (\<lambda>c. fst c = tab) (syncEntries_scrolls env (queue_set tab v q)) =
         [(tab, v - contentInset env)]"
  using assms by (simp add: filter_syncEntries_scrolls filter_queue_set)

lemma coalescing_hook:
  assumes "distinct (map fst (syncQueue s))"
    and "\<not> isScrolling s" and "\<not> isProcessing s" and "interactions s = []"
    and "\<not> tooFar env tab"
    and "refMap env tab \<noteq> None"
    and "t1 - lastProcessTime s < getThrottleInterval s"
    and "t2 - lastProcessTime s < getThrottleInterval s"
  shows
    "filter (\<lambda>e. fst e = tab) (syncQueue (two_requests env tab t1 v1 t2 v2 s)) = [(tab, v2)]
     \<and> scrolled (two_requests env tab t1 v1 t2 v2 s) = scrolled s
     \<and> interactions (two_requests env tab t1 v1 t2 v2 s) = []
     \<and> corrections_to tab (runInteractions env (processBatch now (two_requests env tab t1 v1 t2 v2 s)))
         = corrections_to tab s @ [(tab, v2 - contentInset env)]
     \<and> processBatch now' (processBatch now (two_requests env tab t1 v1 t2 v2 s))
         = processBatch now (two_requests env tab t1 v1 t2 v2 s)
     \<and> processBatch now' (runInteractions env (processBatch now (two_requests env tab t1 v1 t2 v2 s)))
         = runInteractions env (processBatch now (two_requests env tab t1 v1 t2 v2 s))
     \<and> (timers s = []
          \<and> lastProcessTime s + getThrottleInterval s \<le> now
          \<and> lastProcessTime s + getThrottleInterval s \<le> now' \<longrightarrow>
        corrections_to tab
          (run env [FireTimer now, FireTimer now', RunInteractions]
             (two_requests env tab t1 v1 t2 v2 s))
          = corrections_to tab s @ [(tab, v2 - contentInset env)])"
proof -
  let ?s2 = "two_requests env tab t1 v1 t2 v2 s"
  let ?d = "lastProcessTime s + getThrottleInterval s"
  have s2: "?s2 = s\<lparr>syncQueue := queue_set tab v2 (syncQueue s),
       timers := add_timer (?d, ProcessBatch) (add_timer (?d, ProcessBatch) (timers s))\<rparr>"
    using assms by (intro two_requests_deferred)
  have q: "filter (\<lambda>e. fst e = tab) (syncQueue ?s2) = [(tab, v2)]"
    using assms(1) by (simp add: s2 filter_queue_set)
  have n: "scrolled ?s2 = scrolled s" "interactions ?s2 = []"
    using assms(4) by (simp_all add: s2)
  have dr: "runInteractions env (processBatch now ?s2) =
      ?s2\<lparr>syncQueue := [], isProcessing := False, lastProcessTime := now,
          scrolled := scrolled ?s2 @ syncEntries_scrolls env (syncQueue ?s2)\<rparr>"
    using assms(2-4) by (intro drain_scrolled) (simp_all add: s2 queue_set_nonempty)
  have co: "corrections_to tab (runInteractions env (processBatch now ?s2))
         = corrections_to tab s @ [(tab, v2 - contentInset env)]"
    using corrections_drain[OF assms(1) assms(6), of v2]
    by (simp add: dr corrections_to_def) (simp add: s2)
  have p2: "processBatch now' (runInteractions env (processBatch now ?s2))
         = runInteractions env (processBatch now ?s2)"
    by (simp add: dr processBatch_empty)
  have tm: "corrections_to tab (run env [FireTimer now, FireTimer now', RunInteractions] ?s2)
          = corrections_to tab s @ [(tab, v2 - contentInset env)]"
    if t: "timers s = []" "?d \<le> now" "?d \<le> now'"
  proof -
    have "run env [FireTimer now, FireTimer now', RunInteractions] ?s2 =
        s\<lparr>syncQueue := [], isProcessing := False, lastProcessTime := now, timers := [],
          scrolled := scrolled s @ syncEntries_scrolls env (queue_set tab v2 (syncQueue s))\<rparr>"
      using t assms(2-4)
      by (simp add: s2 run_def fireTimer_def processBatch_def queue_set_nonempty
            runInteractions_def interactionCallback_def)
    then show ?thesis
      using corrections_drain[OF assms(1) assms(6), of v2] by (simp add: corrections_to_def)
  qed
  show ?thesis
    using q n co p2 tm processBatch_twice[of now' now ?s2] by blast
qed

lemma abc_start_eq:
  "abc_start = initial_sync_state\<lparr>lastProcessTime := 1000, scrolled := [(''A'', 100)]\<rparr>"
  by (simp add: abc_start_def env_abc_def sync_eval)

lemma detached_start_eq:
  "detached_start = initial_sync_state\<lparr>lastProcessTime := 1000, scrolled := [(''A'', 100)]\<rparr>"
  by (simp add: detached_start_def env_detached_def sync_eval)

text \<open>
  The hook at requests for B at 1005 and 1010 after a batch processed at 1000: the one
  correction goes to \<open>70 - 20\<close>.
\<close>

lemma coalescing_hook_example:
  "filter (\<lambda>e. fst e = ''B'') (syncQueue (two_requests env_abc ''B'' 1005 50 1010 70 abc_start))
     = [(''B'', 70)]
   \<and> corrections_to ''B''
        (run env_abc [FireTimer 1016, FireTimer 1017, RunInteractions]
           (two_requests env_abc ''B'' 1005 50 1010 70 abc_start)) = [(''B'', 50)]"
proof -
  have h: "distinct (map fst (syncQueue abc_start))" "\<not> isScrolling abc_start"
    "\<not> isProcessing abc_start" "interactions abc_start = []" "timers abc_start = []"
    "1005 - lastProcessTime abc_start < getThrottleInterval abc_start"
    "1010 - lastProcessTime abc_start < getThrottleInterval abc_start"
    "lastProcessTime abc_start + getThrottleInterval abc_start \<le> 1016"
    "lastProcessTime abc_start + getThrottleInterval abc_start \<le> 1017"
    "corrections_to ''B'' abc_start = []"
    by (simp_all add: abc_start_eq initial_sync_state_def getThrottleInterval_def corrections_to_def)
  have e: "\<not> tooFar env_abc ''B''" "refMap env_abc ''B'' \<noteq> None" "contentInset env_abc = 20"
    by (simp_all add: tooFar_def env_abc_def requestSync_currentIndex_def requestSync_focusedIndex_def)
  from coalescing_hook[OF h(1-4) e(1,2) h(6,7), of 50 70 1016 1017]
  show ?thesis using h(5,8,9,10) e(3) by simp
qed

lemmas ts_eval = some_truth
  ts_run_def ts_requestSync_def ts_scheduleBatchProcess_def ts_processBatch_def
  ts_animationFrame_def ts_settleBatch_def performSync_worklet_def new_tabsync_def
  PROCESS_INTERVAL_def Let_def

text \<open>
  The class, for any tab with a ref in \<^verbatim>\<open>refMap\<close>: two throttled requests ask for two
  animation frames, and each frame starts \<^verbatim>\<open>performSync\<close> for every attached entry of the
  queue, which the first frame has not cleared.  A batch that started a \<^verbatim>\<open>performSync\<close>
  never completes.
\<close>

lemma class_two_frames:
  assumes "\<not> ts_isScrolling c" and "\<not> ts_isProcessing c"
    and "t1 - ts_lastProcessTime c < PROCESS_INTERVAL"
    and "t2 - ts_lastProcessTime c < PROCESS_INTERVAL"
  shows "ts_batches (ts_animationFrame env now' (ts_animationFrame env now
           (ts_requestSync env t2 tab v2 (ts_requestSync env t1 tab v1 c)))) =
         ts_batches c
           @ [filter (\<lambda>e. refMap env (fst e) \<noteq> None) (queue_set tab v2 (ts_syncQueue c)),
              filter (\<lambda>e. refMap env (fst e) \<noteq> None) (queue_set tab v2 (ts_syncQueue c))]"
  using assms
  by (simp add: ts_requestSync_def ts_scheduleBatchProcess_def ts_processBatch_def
        ts_animationFrame_def Let_def queue_set_twice queue_set_nonempty del: not_None_eq)

lemma settled_out_pending:
  assumes "\<forall>b \<in> set bs. b \<noteq> [] \<and> (\<forall>e \<in> set b. refMap env (fst e) \<noteq> None)"
  shows "settled_out env bs = None"
  using assms
proof (induction bs)
  case Nil
  show ?case by simp
next
  case (Cons b bs)
  then obtain e es where "b = e # es" by (cases b) auto
  with Cons show ?case by (simp add: performSync_worklet_def)
qed

text \<open>
  C1.  The class on the requests for A at 1005 and 1010, with a batch processed at 1000:
  the queue holds the single entry \<open>(A, 70)\<close> and two animation frames are pending.  Both
  frames run \<^verbatim>\<open>processBatch\<close> over that queue, so \<^verbatim>\<open>performSync(A, 70)\<close> is started
  twice.  Its worklet throws at the call of \<^verbatim>\<open>scrollToImpl\<close>, so no correction is made,
  neither batch ever completes, the queue is never cleared and \<^verbatim>\<open>isProcessing\<close> stays
  true.  The hook on the same requests issues the one correction to \<open>70 - 20\<close>.
\<close>

theorem class_drains_coalesced_queue_twice:
  "ts_syncQueue (ts_run env_detached (take 4 class_pair_events) new_tabsync) = [(''A'', 70)]
   \<and> ts_frames (ts_run env_detached (take 4 class_pair_events) new_tabsync) = 2
   \<and> ts_batches (ts_run env_detached (take 4 class_pair_events) new_tabsync) = []
   \<and> ts_batches (ts_run env_detached class_pair_events new_tabsync)
       = [[(''A'', 70)], [(''A'', 70)]]
   \<and> performSync_worklet env_detached (''A'', 70) = Throws
   \<and> ts_run env_detached (class_pair_events @ [TsSettleBatch]) new_tabsync
       = ts_run env_detached class_pair_events new_tabsync
   \<and> ts_syncQueue (ts_run env_detached class_pair_events new_tabsync) = [(''A'', 70)]
   \<and> ts_isProcessing (ts_run env_detached class_pair_events new_tabsync)
   \<and> corrections_to ''A'' (run env_detached (take 2 hook_pair_events) initial_sync_state)
       = [(''A'', 100)]
   \<and> corrections_to ''A'' (run env_detached hook_pair_events initial_sync_state)
       = [(''A'', 100), (''A'', 50)]"
  by (simp add: class_pair_events_def hook_pair_events_def env_detached_def corrections_to_def
        ts_eval sync_eval)

lemma scrolling_fireTimer:
  assumes "isScrolling s"
  shows "isScrolling (fireTimer now s) \<and> scrolled (fireTimer now s) = scrolled s
         \<and> syncQueue (fireTimer now s) = syncQueue s
         \<and> interactions (fireTimer now s) = interactions s"
  using assms
  by (simp add: fireTimer_def processBatch_def recordTabSwitch_def Let_def
        split: list.splits task.splits)

lemma scrolling_requestSync:
  assumes "isScrolling s"
  shows "isScrolling (requestSync env now tab v s) \<and> scrolled (requestSync env now tab v s) = scrolled s
         \<and> interactions (requestSync env now tab v s) = interactions s
         \<and> isProcessing (requestSync env now tab v s) = isProcessing s"
  using assms by (simp add: requestSync_def processBatch_def Let_def)

lemma scrolling_requestSync_queued:
  assumes "isScrolling s" and "\<not> tooFar env tab"
  shows "map_of (syncQueue (requestSync env now tab v s)) tab = Some v"
  using assms by (simp add: requestSync_def processBatch_def Let_def tooFar_def map_of_queue_set)

lemma suspended_step:
  assumes "suspended s0 s" and "keeps_scrolling e"
  shows "suspended s0 (step env s e)"
proof (cases e)
  case (RequestSync now tab v)
  then show ?thesis
    using assms scrolling_requestSync[of s env now tab v] by (simp add: suspended_def)
next
  case (SmartTabSwitch now i c)
  then show ?thesis using assms by (simp add: suspended_def smartTabSwitch_def Let_def)
next
  case (FireTimer now)
  then show ?thesis using assms scrolling_fireTimer[of s now] by (simp add: suspended_def)
next
  case RunInteractions
  then show ?thesis using assms by (simp add: suspended_def runInteractions_def)
next
  case (SetScrolling b)
  then show ?thesis using assms by (simp add: suspended_def keeps_scrolling_def)
next
  case Cleanup
  then show ?thesis using assms by (simp add: suspended_def)
qed

lemma suspended_run:
  "suspended s0 s \<Longrightarrow> list_all keeps_scrolling evs \<Longrightarrow> suspended s0 (run env evs s)"
  by (induction evs rule: rev_induct) (simp_all add: run_def suspended_step)

text \<open>
  The gesture guard of the hook.  While \<^verbatim>\<open>isScrolling\<close> is true \<^verbatim>\<open>processBatch\<close> is a
  no-op; a \<^verbatim>\<open>requestSync\<close> that passes the distance test leaves its value in the queue and
  issues no correction; and no series of events issues or schedules a correction as long
  as the gesture lasts and no interaction callback was pending when it began.
\<close>

lemma gesture_suspends_processing:
  "(isScrolling s \<longrightarrow> processBatch now s = s)
   \<and> (isScrolling s \<and> \<not> tooFar env tab \<longrightarrow>
        map_of (syncQueue (requestSync env now tab v s)) tab = Some v
        \<and> scrolled (requestSync env now tab v s) = scrolled s
        \<and> interactions (requestSync env now tab v s) = interactions s)
   \<and> (isScrolling s \<and> interactions s = [] \<and> list_all keeps_scrolling evs \<longrightarrow>
        scrolled (run env evs s) = scrolled s \<and> interactions (run env evs s) = [])"
proof -
  have r: "scrolled (run env evs s) = scrolled s \<and> interactions (run env evs s) = []"
    if "isScrolling s" "interactions s = []" "list_all keeps_scrolling evs"
  proof -
    have "suspended s s" using that by (simp add: suspended_def)
    from suspended_run[OF this that(3)] show ?thesis by (simp add: suspended_def)
  qed
  show ?thesis
    using r processBatch_scrolling[of s now] scrolling_requestSync[of s env now tab v]
      scrolling_requestSync_queued[of s env tab now v]
    by blast
qed

text \<open>
  C2.  The hook has no guard for a tab switch in progress: \<^verbatim>\<open>smartTabSwitch\<close> clears the
  queue and sets a timeout that records the duration of the switch, and
  \<^verbatim>\<open>processBatch\<close> tests only \<^verbatim>\<open>isScrolling\<close>, the queue and \<^verbatim>\<open>isProcessing\<close>.  A switch
  is started at 1000 and its timeout is due at 1050; a request for B at 1010 is handed to
  the interaction manager at once, and B is scrolled to \<open>120 - 20\<close> while the switch is
  still in progress.
\<close>

theorem no_suspension_during_tab_switch:
  "switchInProgress (run env_abc [SmartTabSwitch 1000 1 True] initial_sync_state)
   \<and> \<not> isScrolling (run env_abc [SmartTabSwitch 1000 1 True] initial_sync_state)
   \<and> timers (run env_abc [SmartTabSwitch 1000 1 True] initial_sync_state)
       = [(1050, RecordSwitch 1000)]
   \<and> interactions (run env_abc [SmartTabSwitch 1000 1 True, RequestSync 1010 ''B'' 120]
        initial_sync_state) = [(1010, [(''B'', 120)])]
   \<and> syncQueue (run env_abc [SmartTabSwitch 1000 1 True, RequestSync 1010 ''B'' 120]
        initial_sync_state) = []
   \<and> switchInProgress (run env_abc switch_events initial_sync_state)
   \<and> scrolled (run env_abc switch_events initial_sync_state) = [(''B'', 100)]"
  by (simp add: switch_events_def switchInProgress_def env_abc_def sync_eval)

lemma ten_apart_deferred:
  assumes "\<not> tooFar env tab" and "\<not> tooFar env tab'"
    and "t + 10 - lastProcessTime s < getThrottleInterval s"
  shows "ten_apart env t tab v tab' v' s =
     s\<lparr>syncQueue := queue_set tab' v' (queue_set tab v (syncQueue s)),
       timers := add_timer (lastProcessTime s + getThrottleInterval s, ProcessBatch)
         (add_timer (lastProcessTime s + getThrottleInterval s, ProcessBatch) (timers s))\<rparr>"
proof -
  let ?s1 = "requestSync env t tab v s"
  have s1: "?s1 = s\<lparr>syncQueue := queue_set tab v (syncQueue s),
       timers := add_timer (lastProcessTime s + getThrottleInterval s, ProcessBatch) (timers s)\<rparr>"
    using assms by (simp add: requestSync_deferred)
  have l: "lastProcessTime ?s1 = lastProcessTime s" and g: "getThrottleInterval ?s1 = getThrottleInterval s"
    by (simp_all add: s1 getThrottleInterval_def)
  have "requestSync env (t + 10) tab' v' ?s1 =
      ?s1\<lparr>syncQueue := queue_set tab' v' (syncQueue ?s1),
       timers := add_timer (lastProcessTime ?s1 + getThrottleInterval ?s1, ProcessBatch) (timers ?s1)\<rparr>"
    using assms by (intro requestSync_deferred) (simp_all add: l g)
  then show ?thesis
    by (simp add: ten_apart_def l g) (simp add: s1)
qed

text \<open>
  C5 (as amended).  The throttle interval is 16 under \<open>Normal\<close>, 33 under \<open>Moderate\<close> and
  50 under \<open>Aggressive\<close>.  A request that passes the distance test and arrives sooner than
  \<open>lastProcessTime + interval\<close> is queued, not dropped, and a run of \<^verbatim>\<open>processBatch\<close> is
  set to fire at \<open>lastProcessTime + interval\<close>.  Under \<open>Moderate\<close>, when no gesture is in
  progress, no batch is in flight, and no timer and no interaction callback is pending,
  two requests ten milliseconds apart that pass the distance test and both arrive sooner
  than \<open>lastProcessTime + 33\<close> leave two timers due at that boundary and nothing
  processed; when the timers fire, at \<open>T\<close> and \<open>T'\<close> no earlier than the boundary, exactly
  one batch is handed to the interaction manager, at \<open>T\<close>, holding both requests, whether
  the interaction callback runs before or after the second timer.
\<close>

theorem throttle_boundary:
  "(performanceStrategy s = Normal \<longrightarrow> getThrottleInterval s = 16)
   \<and> (performanceStrategy s = Moderate \<longrightarrow> getThrottleInterval s = 33)
   \<and> (performanceStrategy s = Aggressive \<longrightarrow> getThrottleInterval s = 50)
   \<and> (\<not> tooFar env tab \<and> now - lastProcessTime s < getThrottleInterval s \<longrightarrow>
        requestSync env now tab v s =
          s\<lparr>syncQueue := queue_set tab v (syncQueue s),
            timers := add_timer (lastProcessTime s + getThrottleInterval s, ProcessBatch) (timers s)\<rparr>)
   \<and> (performanceStrategy s = Moderate
        \<and> \<not> isScrolling s \<and> \<not> isProcessing s \<and> timers s = [] \<and> interactions s = []
        \<and> \<not> tooFar env tab \<and> \<not> tooFar env tab'
        \<and> t + 10 - lastProcessTime s < 33
        \<and> lastProcessTime s + 33 \<le> T \<and> lastProcessTime s + 33 \<le> T' \<longrightarrow>
        timers (ten_apart env t tab v tab' v' s) =
          [(lastProcessTime s + 33, ProcessBatch), (lastProcessTime s + 33, ProcessBatch)]
        \<and> interactions (ten_apart env t tab v tab' v' s) = []
        \<and> scrolled (ten_apart env t tab v tab' v' s) = scrolled s
        \<and> interactions (run env [FireTimer T, FireTimer T'] (ten_apart env t tab v tab' v' s)) =
            [(T, queue_set tab' v' (queue_set tab v (syncQueue s)))]
        \<and> timers (run env [FireTimer T, FireTimer T'] (ten_apart env t tab v tab' v' s)) = []
        \<and> run env [FireTimer T, RunInteractions, FireTimer T'] (ten_apart env t tab v tab' v' s) =
            run env [FireTimer T, FireTimer T', RunInteractions] (ten_apart env t tab v tab' v' s)
        \<and> lastProcessTime
            (run env [FireTimer T, FireTimer T', RunInteractions] (ten_apart env t tab v tab' v' s)) = T
        \<and> scrolled
            (run env [FireTimer T, FireTimer T', RunInteractions] (ten_apart env t tab v tab' v' s)) =
            scrolled s @ syncEntries_scrolls env (queue_set tab' v' (queue_set tab v (syncQueue s))))"
proof -
  have i: "(performanceStrategy s = Normal \<longrightarrow> getThrottleInterval s = 16)
   \<and> (performanceStrategy s = Moderate \<longrightarrow> getThrottleInterval s = 33)
   \<and> (performanceStrategy s = Aggressive \<longrightarrow> getThrottleInterval s = 50)"
    by (simp add: getThrottleInterval_def)
  have d: "\<not> tooFar env tab \<and> now - lastProcessTime s < getThrottleInterval s \<longrightarrow>
        requestSync env now tab v s =
          s\<lparr>syncQueue := queue_set tab v (syncQueue s),
            timers := add_timer (lastProcessTime s + getThrottleInterval s, ProcessBatch) (timers s)\<rparr>"
    using requestSync_deferred by blast
  have m: "timers (ten_apart env t tab v tab' v' s) =
          [(lastProcessTime s + 33, ProcessBatch), (lastProcessTime s + 33, ProcessBatch)]
        \<and> interactions (ten_apart env t tab v tab' v' s) = []
        \<and> scrolled (ten_apart env t tab v tab' v' s) = scrolled s
        \<and> interactions (run env [FireTimer T, FireTimer T'] (ten_apart env t tab v tab' v' s)) =
            [(T, queue_set tab' v' (queue_set tab v (syncQueue s)))]
        \<and> timers (run env [FireTimer T, FireTimer T'] (ten_apart env t tab v tab' v' s)) = []
        \<and> run env [FireTimer T, RunInteractions, FireTimer T'] (ten_apart env t tab v tab' v' s) =
            run env [FireTimer T, FireTimer T', RunInteractions] (ten_apart env t tab v tab' v' s)
        \<and> lastProcessTime
            (run env [FireTimer T, FireTimer T', RunInteractions] (ten_apart env t tab v tab' v' s)) = T
        \<and> scrolled
            (run env [FireTimer T, FireTimer T', RunInteractions] (ten_apart env t tab v tab' v' s)) =
            scrolled s @ syncEntries_scrolls env (queue_set tab' v' (queue_set tab v (syncQueue s)))"
    if h: "performanceStrategy s = Moderate" "\<not> isScrolling s" "\<not> isProcessing s"
      "timers s = []" "interactions s = []" "\<not> tooFar env tab" "\<not> tooFar env tab'"
      "t + 10 - lastProcessTime s < 33" "lastProcessTime s + 33 \<le> T" "lastProcessTime s + 33 \<le> T'"
  proof -
    have g: "getThrottleInterval s = 33" using h(1) by (simp add: getThrottleInterval_def)
    have e: "ten_apart env t tab v tab' v' s =
       s\<lparr>syncQueue := queue_set tab' v' (queue_set tab v (syncQueue s)),
         timers := [(lastProcessTime s + 33, ProcessBatch), (lastProcessTime s + 33, ProcessBatch)]\<rparr>"
      using ten_apart_deferred[OF h(6,7), of t s v v'] h(4,8) by (simp add: g)
    show ?thesis
      using h(2,3,5,9,10)
      by (simp add: e run_def fireTimer_def processBatch_def queue_set_nonempty
            runInteractions_def interactionCallback_def)
  qed
  show ?thesis
    using i d m by blast
qed


text \<open>
  The theorem at the three strategies, and at requests for A at 1005 and for B at 1015
  after a batch processed at 1000 under \<open>Moderate\<close>: one batch, at 1033.
\<close>

theorem throttle_boundary_witness:
  "performanceStrategy initial_sync_state = Normal
   \<and> getThrottleInterval initial_sync_state = 16
   \<and> performanceStrategy moderate_state = Moderate
   \<and> getThrottleInterval moderate_state = 33
   \<and> performanceStrategy (record_all [120, 130, 110] initial_sync_state) = Aggressive
   \<and> getThrottleInterval (record_all [120, 130, 110] initial_sync_state) = 50
   \<and> \<not> tooFar env_abc ''A'' \<and> \<not> tooFar env_abc ''B''
   \<and> 1005 - lastProcessTime moderate_state < getThrottleInterval moderate_state
   \<and> timers (requestSync env_abc 1005 ''A'' 130 moderate_state) = [(1033, ProcessBatch)]
   \<and> syncQueue (requestSync env_abc 1005 ''A'' 130 moderate_state) = [(''A'', 130)]
   \<and> interactions (run env_abc [FireTimer 1033, FireTimer 1034]
        (ten_apart env_abc 1005 ''A'' 130 ''B'' 70 moderate_state))
       = [(1033, [(''A'', 130), (''B'', 70)])]
   \<and> scrolled (run env_abc [FireTimer 1033, FireTimer 1034, RunInteractions]
        (ten_apart env_abc 1005 ''A'' 130 ''B'' 70 moderate_state))
       = [(''A'', 100), (''A'', 110), (''B'', 50)]"
proof -
  have n: "performanceStrategy initial_sync_state = Normal"
    by (simp add: initial_sync_state_def)
  have a: "performanceStrategy (record_all [120, 130, 110] initial_sync_state) = Aggressive"
    by (simp add: record_all_def recordTabSwitch_def initial_sync_state_def avgTime_def Let_def)
  have m: "performanceStrategy moderate_state = Moderate" "\<not> isScrolling moderate_state"
    "\<not> isProcessing moderate_state" "timers moderate_state = []" "interactions moderate_state = []"
    "lastProcessTime moderate_state = 1000" "syncQueue moderate_state = []"
    "scrolled moderate_state = [(''A'', 100)]"
    by (simp_all add: moderate_state_eq)
  have f: "\<not> tooFar env_abc ''A''" "\<not> tooFar env_abc ''B''"
    by (simp_all add: tooFar_abc)
  have e: "syncEntries_scrolls env_abc [(''A'', 130), (''B'', 70)] = [(''A'', 110), (''B'', 50)]"
    by (simp add: env_abc_def)
  from throttle_boundary[of initial_sync_state env_abc "''A''" 1005 130 "''B''" 1005 1033 1034 70]
    throttle_boundary[of "record_all [120, 130, 110] initial_sync_state" env_abc "''A''" 1005 130
      "''B''" 1005 1033 1034 70]
    throttle_boundary[of moderate_state env_abc "''A''" 1005 130 "''B''" 1005 1033 1034 70]
  show ?thesis using n a m f e by simp
qed

text \<open>
  C5 as stated fails when the two requests do not both arrive before the boundary.  Under
  \<open>Moderate\<close> with the last batch at 1000, requests at 1030 and 1040 are processed in two
  batches, at 1033 (after the first two events) and at 1066 (after the first five);
  requests at 2000 and 2010 are processed in two batches, at 2000 (after the first event)
  and at 2033 (after the first four).
\<close>

theorem throttle_two_batches:
  "performanceStrategy moderate_state = Moderate
   \<and> lastProcessTime moderate_state = 1000
   \<and> scrolled moderate_state = [(''A'', 100)]
   \<and> interactions (run env_abc (take 2 late_pair_events) moderate_state) = [(1033, [(''B'', 70)])]
   \<and> interactions (run env_abc (take 5 late_pair_events) moderate_state) = [(1066, [(''B'', 90)])]
   \<and> scrolled (run env_abc late_pair_events moderate_state) = [(''A'', 100), (''B'', 50), (''B'', 70)]
   \<and> interactions (run env_abc (take 1 idle_pair_events) moderate_state) = [(2000, [(''B'', 70)])]
   \<and> interactions (run env_abc (take 4 idle_pair_events) moderate_state) = [(2033, [(''B'', 90)])]
   \<and> scrolled (run env_abc idle_pair_events moderate_state) = [(''A'', 100), (''B'', 50), (''B'', 70)]"
  by (simp add: moderate_state_eq late_pair_events_def idle_pair_events_def env_abc_def sync_eval)

text \<open>
  C4.  The index that \<^verbatim>\<open>requestSync\<close> calls \<^verbatim>\<open>focusedIndex\<close> is that of the first tab
  whose ref has a current instance.  With four mounted tabs it is 0 whichever tab has the
  focus.  When the focus is on D (index 3, mounted), a request for B (index 1, two away
  from D) is queued, processed and scrolls B, and a request for D itself returns at once.
\<close>

theorem distance_measured_from_first_mounted_tab:
  "requestSync_focusedIndex env_abcd = 0
   \<and> requestSync_currentIndex env_abcd ''B'' = 1
   \<and> requestSync_currentIndex env_abcd ''D'' = 3
   \<and> refMap env_abcd ''D'' = Some True
   \<and> scrolled (run env_abcd [RequestSync 1000 ''B'' 120, RunInteractions] initial_sync_state)
       = [(''B'', 100)]
   \<and> run env_abcd [RequestSync 1000 ''D'' 120, RunInteractions] initial_sync_state
       = initial_sync_state"
  by (simp add: env_abcd_def sync_eval)

end
